theory Spec2Isabelle
  imports Main
begin

section \<open>Strings\<close>

text \<open>
  A Python \<open>str\<close> is a sequence of Unicode code points, so a string is a list of
  natural numbers; \<open>ustr\<close> writes an ASCII literal as such a list. Indexing, slicing and
  \<open>len\<close> count code points, as \<open>drop\<close>, \<open>take\<close> and \<open>length\<close> do here.
\<close>

type_synonym str = "nat list"

abbreviation ustr :: "string \<Rightarrow> str" where
  "ustr s \<equiv> map of_char s"

text \<open>
  \<open>str.startswith\<close> and \<open>str.endswith\<close>, used to state what a regular expression
  anchored with \<open>^\<close> or \<open>$\<close> matches.
\<close>

definition startswith :: "str \<Rightarrow> str \<Rightarrow> bool" where
  "startswith s pre = (take (length pre) s = pre)"

definition endswith :: "str \<Rightarrow> str \<Rightarrow> bool" where
  "endswith s suf = (length suf \<le> length s \<and> drop (length s - length suf) s = suf)"

text \<open>
  \<open>s.split(sep)\<close> for a one-character separator: the segments between the occurrences
  of \<open>sep\<close>, always at least one segment. \<open>cons_first\<close> puts a character in front of the
  first segment.
\<close>

fun cons_first :: "nat \<Rightarrow> str list \<Rightarrow> str list" where
  "cons_first c [] = [[c]]"
| "cons_first c (p # ps) = (c # p) # ps"

fun py_split :: "nat \<Rightarrow> str \<Rightarrow> str list" where
  "py_split sep [] = [[]]"
| "py_split sep (c # cs) =
     (if c = sep then [] # py_split sep cs else cons_first c (py_split sep cs))"

text \<open>\<open>s.split(sep, maxsplit)\<close>: at most \<open>maxsplit\<close> cuts, the rest is left whole.\<close>

fun py_splitn :: "nat \<Rightarrow> nat \<Rightarrow> str \<Rightarrow> str list" where
  "py_splitn 0 sep s = [s]"
| "py_splitn (Suc n) sep [] = [[]]"
| "py_splitn (Suc n) sep (c # cs) =
     (if c = sep then [] # py_splitn n sep cs
      else cons_first c (py_splitn (Suc n) sep cs))"

text \<open>\<open>sep.join(parts)\<close>.\<close>

fun py_join :: "str \<Rightarrow> str list \<Rightarrow> str" where
  "py_join sep [] = []"
| "py_join sep [p] = p"
| "py_join sep (p # q # ps) = p @ sep @ py_join sep (q # ps)"

section \<open>Regular expressions of the source\<close>

text \<open>
  Under \<open>re.IGNORECASE\<close> a literal of a \<open>str\<close> pattern matches Unicode-aware.
  \<open>lit_ic p c\<close>: the pattern character \<open>p\<close> (an ASCII character that is not an upper-case
  letter, as all pattern characters of the source are) matches the code point \<open>c\<close>. Next
  to the ASCII upper-case letter, \<open>i\<close> matches U+0130 and U+0131, \<open>s\<close> matches U+017F
  and \<open>k\<close> matches U+212A.
\<close>

definition lit_ic :: "nat \<Rightarrow> nat \<Rightarrow> bool" where
  "lit_ic p c =
     (c = p \<or> (97 \<le> p \<and> p \<le> 122 \<and> c + 32 = p) \<or>
      (p = 105 \<and> (c = 304 \<or> c = 305)) \<or> (p = 115 \<and> c = 383) \<or>
      (p = 107 \<and> c = 8490))"

text \<open>
  \<open>match_ic pat s\<close>: the literal pattern \<open>pat\<close> matches at the start of \<open>s\<close>, ignoring
  case: \<open>re.search("^pat", s, re.IGNORECASE)\<close> (without \<open>re.MULTILINE\<close>, \<open>^\<close> is the
  start of the string only).
  \<open>search_ic pat s\<close>: it matches somewhere in \<open>s\<close>: \<open>re.search("pat", s, re.IGNORECASE)\<close>.
\<close>

fun match_ic :: "str \<Rightarrow> str \<Rightarrow> bool" where
  "match_ic [] s = True"
| "match_ic (p # ps) [] = False"
| "match_ic (p # ps) (c # cs) = (lit_ic p c \<and> match_ic ps cs)"

fun search_ic :: "str \<Rightarrow> str \<Rightarrow> bool" where
  "search_ic pat [] = match_ic pat []"
| "search_ic pat (c # cs) = (match_ic pat (c # cs) \<or> search_ic pat cs)"

section \<open>URI normalization\<close>

text \<open>
  \<open>strip_dot_git\<close> is \<open>re.sub(r"\.git$", "", url, re.IGNORECASE)\<close>. The fourth positional
  parameter of \<open>re.sub\<close> is \<open>count\<close>, not \<open>flags\<close>: the call replaces at most
  \<open>re.IGNORECASE = 2\<close> matches and matches case-sensitively. Without \<open>re.MULTILINE\<close>,
  \<open>$\<close> matches at the end of the string and just before a newline that ends the string,
  so the pattern has at most one match: the last four characters, or the four characters
  before a final newline.
\<close>

definition strip_dot_git :: "str \<Rightarrow> str" where
  "strip_dot_git url =
     (if endswith url (ustr ''.git'') then take (length url - 4) url
      else if endswith url (ustr ''.git'' @ [10]) then take (length url - 5) url @ [10]
      else url)"

text \<open>
  \<open>Git.get_url_from_remote_uri\<close>. The three tests are three separate \<open>if\<close> statements
  of the source, each assigning \<open>url\<close>, so a later test that matches overrides an earlier
  one. \<open>uri[4:]\<close> is \<open>drop 4 uri\<close>, \<open>parts[:-1]\<close> is \<open>butlast parts\<close> and
  \<open>parts[-1]\<close> is \<open>last parts\<close> (\<open>parts\<close> is never empty). The final
  \<open>strip_dot_git(url) if url else None\<close> yields \<open>None\<close> for \<open>None\<close> and for the empty
  string.
\<close>

definition get_url_from_remote_uri :: "str \<Rightarrow> str option" where
  "get_url_from_remote_uri uri =
     (let url = None;
          url = (if match_ic (ustr ''ssh://'') uri then None else url);
          url = (if match_ic (ustr ''http://'') uri \<or> match_ic (ustr ''https://'') uri
                 then Some uri else url);
          url = (if search_ic (ustr ''git@'') uri
                 then (let parts = py_split (of_char CHR '':'') (drop 4 uri);
                           host = py_join (ustr '':'') (butlast parts);
                           path = last parts
                       in Some (ustr ''https://'' @ host @ ustr ''/'' @ path))
                 else url)
      in case url of
           None \<Rightarrow> None
         | Some u \<Rightarrow> if u = [] then None else Some (strip_dot_git u))"

section \<open>Process Runner\<close>

text \<open>
  The wrapper object of \<open>Git.__init__\<close>: the working directory, the executable and the
  encoding of its output.
\<close>

record git =
  repo_path :: str
  git_bin :: str
  encoding :: str

text \<open>
  What one external process does, as the operating system decides it: it completes within
  the timeout with an exit code and the decoded standard output and standard error, or
  \<open>communicate\<close> runs into the timeout, or \<open>Popen\<close> cannot start the process (the
  executable or the working directory is missing), or the output does not decode.
  The operating system is a function from the command line, the working directory, the
  encoding and the timeout in seconds to this outcome.
\<close>

datatype outcome =
    Exited int str str
  | TimedOut
  | SpawnFailed
  | DecodeFailed

type_synonym os = "str list \<Rightarrow> str \<Rightarrow> str \<Rightarrow> nat \<Rightarrow> outcome"

text \<open>
  The exceptions that leave \<open>Git.run\<close>: its own \<open>GitException\<close> with its message, and
  those of \<open>subprocess\<close>, which \<open>run\<close> does not catch.
\<close>

datatype exn =
    GitException str
  | TimeoutExpired
  | OSError
  | UnicodeDecodeError

text \<open>
  \<open>str.isspace\<close> on one code point, and \<open>out.rstrip()\<close>, which removes the trailing
  code points that satisfy it.
\<close>

definition isspace :: "nat \<Rightarrow> bool" where
  "isspace c =
     ((9 \<le> c \<and> c \<le> 13) \<or> (28 \<le> c \<and> c \<le> 32) \<or> c = 133 \<or> c = 160 \<or> c = 5760 \<or>
      (8192 \<le> c \<and> c \<le> 8202) \<or> c = 8232 \<or> c = 8233 \<or> c = 8239 \<or> c = 8287 \<or>
      c = 12288)"

definition rstrip :: "str \<Rightarrow> str" where
  "rstrip s = rev (dropWhile isspace (rev s))"

text \<open>
  \<open>shlex.quote\<close>: the empty string becomes two single quotes; a string of safe
  characters only (ASCII letters, digits and \<open>_@%+=:,./-\<close>) is left as it is; any other
  string is put in single quotes, each single quote of it written
  as \<open>'"'"'\<close> (code points 39, 34, 39, 34, 39).
\<close>

definition shlex_safe :: "nat \<Rightarrow> bool" where
  "shlex_safe c =
     ((48 \<le> c \<and> c \<le> 57) \<or> (65 \<le> c \<and> c \<le> 90) \<or> (97 \<le> c \<and> c \<le> 122) \<or>
      c \<in> set (ustr ''_@%+=:,./-''))"

definition shlex_quote :: "str \<Rightarrow> str" where
  "shlex_quote s =
     (if s = [] then [39, 39]
      else if list_all shlex_safe s then s
      else [39] @ concat (map (\<lambda>c. if c = 39 then [39, 34, 39, 34, 39] else [c]) s) @ [39])"

text \<open>The decimal text of an integer, as \<open>"{}".format(ret_code)\<close> writes it.\<close>

fun str_nat :: "nat \<Rightarrow> str" where
  "str_nat n = (if n < 10 then [48 + n] else str_nat (n div 10) @ [48 + n mod 10])"

declare str_nat.simps [simp del]

definition str_int :: "int \<Rightarrow> str" where
  "str_int i = (if i < 0 then 45 # str_nat (nat (- i)) else str_nat (nat i))"

text \<open>
  \<open>Git.run\<close>. The command lines passed to \<open>Popen\<close> so far are kept in a log, which
  every call extends by its own; the result is the stripped output, or the exception
  that leaves \<open>run\<close>. \<open>if ret_code\<close> holds for every exit code but zero.
\<close>

type_synonym log = "str list list"

definition git_exception_message :: "str list \<Rightarrow> int \<Rightarrow> str \<Rightarrow> str" where
  "git_exception_message cmd_tuple ret_code err =
     [96] @ py_join (ustr '' '') (map shlex_quote cmd_tuple) @ [96]
       @ ustr '' returned code '' @ str_int ret_code @ ustr '': '' @ err"

definition run :: "os \<Rightarrow> git \<Rightarrow> str list \<Rightarrow> nat \<Rightarrow> log \<Rightarrow> (exn + str) \<times> log" where
  "run os g args timeout_s lg =
     (let cmd_tuple = git_bin g # args;
          lg' = lg @ [cmd_tuple]
      in case os cmd_tuple (repo_path g) (encoding g) timeout_s of
           SpawnFailed \<Rightarrow> (Inl OSError, lg')
         | TimedOut \<Rightarrow> (Inl TimeoutExpired, lg')
         | DecodeFailed \<Rightarrow> (Inl UnicodeDecodeError, lg')
         | Exited ret_code out err \<Rightarrow>
             if ret_code \<noteq> 0
             then (Inl (GitException (git_exception_message cmd_tuple ret_code err)), lg')
             else (Inr (rstrip out), lg'))"

section \<open>Remote URL resolution\<close>

text \<open>
  \<open>re.sub(r"^refs/remotes/", "", upstream)\<close>: case-sensitive, and \<open>^\<close> is the start of
  the string only, so the prefix is removed when it is there.
\<close>

definition sub_refs_remotes :: "str \<Rightarrow> str" where
  "sub_refs_remotes upstream =
     (if startswith upstream (ustr ''refs/remotes/'') then drop 13 upstream else upstream)"

text \<open>
  The body of \<open>if not remote\<close> in \<open>Git.get_remote_web_url\<close>: the upstream query
  (\<open>rev_parse_upstream\<close> holds its three arguments, the last one an at sign
  followed by \<open>{upstream}\<close>) and
  the remote name taken from its output, \<open>split("/", 2)[0]\<close>. The list that \<open>split\<close>
  returns is never empty, so its first element exists.
\<close>

definition rev_parse_upstream :: "str list" where
  "rev_parse_upstream =
     [ustr ''rev-parse'', ustr ''--symbolic-full-name'', ustr ''@'' @ ustr ''{upstream}'']"

definition upstream_remote :: "os \<Rightarrow> git \<Rightarrow> log \<Rightarrow> (exn + str) \<times> log" where
  "upstream_remote os g lg =
     (case run os g rev_parse_upstream 3 lg of
        (Inl e, lg1) \<Rightarrow> (Inl e, lg1)
      | (Inr upstream, lg1) \<Rightarrow>
          (Inr (hd (py_splitn 2 (of_char CHR ''/'') (sub_refs_remotes upstream))), lg1))"

text \<open>
  The body of the \<open>try\<close> statement. \<open>not remote\<close> holds for \<open>None\<close> and for the empty
  string.
\<close>

definition try_remote_web_url ::
  "os \<Rightarrow> git \<Rightarrow> str option \<Rightarrow> log \<Rightarrow> (exn + str option) \<times> log" where
  "try_remote_web_url os g remote lg =
     (case (case remote of
              None \<Rightarrow> upstream_remote os g lg
            | Some r \<Rightarrow> if r = [] then upstream_remote os g lg else (Inr r, lg)) of
        (Inl e, lg1) \<Rightarrow> (Inl e, lg1)
      | (Inr r, lg1) \<Rightarrow>
          (case run os g [ustr ''remote'', ustr ''get-url'', r] 3 lg1 of
             (Inl e, lg2) \<Rightarrow> (Inl e, lg2)
           | (Inr remote_uri, lg2) \<Rightarrow> (Inr (get_url_from_remote_uri remote_uri), lg2)))"

text \<open>
  \<open>Git.get_remote_web_url\<close>: the \<open>try\<close> body under \<open>except GitException: return None\<close>.
  Any other exception leaves the method.
\<close>

definition get_remote_web_url ::
  "os \<Rightarrow> git \<Rightarrow> str option \<Rightarrow> log \<Rightarrow> (exn + str option) \<times> log" where
  "get_remote_web_url os g remote lg =
     (case try_remote_web_url os g remote lg of
        (Inl (GitException m), lg') \<Rightarrow> (Inr None, lg')
      | (Inl e, lg') \<Rightarrow> (Inl e, lg')
      | (Inr url, lg') \<Rightarrow> (Inr url, lg'))"

section \<open>Repository detection\<close>

text \<open>
  The file system, as the three queries of \<open>Git.is_in_git_repo\<close> see it:
  \<open>os.path.realpath\<close>, \<open>os.path.isdir\<close> and \<open>os.path.isfile\<close>. Nothing is assumed of
  them, so symbolic links, also cyclic ones, are inside what they may answer.
\<close>

record fs =
  realpath :: "str \<Rightarrow> str"
  isdir :: "str \<Rightarrow> bool"
  isfile :: "str \<Rightarrow> bool"

text \<open>
  \<open>os.path.join(a, b)\<close> and \<open>os.path.dirname(p)\<close> of \<open>posixpath\<close>, which work on the
  text of a path only. \<open>dirname\<close> cuts \<open>p\<close> after its last slash and then removes the
  trailing slashes of this head, unless the head is empty or slashes only.
\<close>

definition path_join :: "str \<Rightarrow> str \<Rightarrow> str" where
  "path_join a b =
     (if startswith b (ustr ''/'') then b
      else if a = [] \<or> endswith a (ustr ''/'') then a @ b
      else a @ ustr ''/'' @ b)"

definition dirname :: "str \<Rightarrow> str" where
  "dirname p =
     (let head = rev (dropWhile (\<lambda>c. c \<noteq> 47) (rev p))
      in if head = [] \<or> list_all (\<lambda>c. c = 47) head then head
         else rev (dropWhile (\<lambda>c. c = 47) (rev head)))"

text \<open>
  The test of one directory: its \<open>.git\<close> entry is a directory (a checkout) or a regular
  file (a worktree).
\<close>

definition has_dot_git :: "fs \<Rightarrow> str \<Rightarrow> bool" where
  "has_dot_git f path =
     (isdir f (path_join path (ustr ''.git'')) \<or> isfile f (path_join path (ustr ''.git'')))"

text \<open>
  The \<open>while True\<close> loop of \<open>Git.is_in_git_repo\<close>, on the current path and the set of
  visited paths. It ends since \<open>dirname\<close> never lengthens a path and keeps the length only
  of a path it leaves as it is, which the visited set then stops.
\<close>

function walk_up :: "fs \<Rightarrow> str \<Rightarrow> str set \<Rightarrow> bool" where
  "walk_up f path visited =
     (if path = [] \<or> path \<in> visited then False
      else if has_dot_git f path then True
      else walk_up f (dirname path) (insert path visited))"
  by pat_completeness auto

lemma dirname_prefix: "\<exists>k. dirname p = take k p"
proof -
  have t: "rev (dropWhile P (rev xs)) = take (length xs - length (takeWhile P (rev xs))) xs"
    for P and xs :: str
    by (metis append_eq_conv_conj length_rev rev_append rev_rev_ident
        takeWhile_dropWhile_id diff_add_inverse length_append)
  define head where "head = rev (dropWhile (\<lambda>c. c \<noteq> 47) (rev p))"
  obtain i where i: "head = take i p" unfolding head_def using t by blast
  obtain j where j: "rev (dropWhile (\<lambda>c. c = 47) (rev head)) = take j head" using t by blast
  have "dirname p = head \<or> dirname p = take j head"
    using j by (auto simp: dirname_def Let_def head_def)
  then show ?thesis using i by auto
qed

lemma dirname_length: "length (dirname p) \<le> length p"
  using dirname_prefix[of p] by auto

lemma dirname_fixed: "length (dirname p) = length p \<Longrightarrow> dirname p = p"
  using dirname_prefix[of p] by (metis length_take min.absorb_iff1 take_all_iff order_refl)

termination walk_up
proof (relation "measure (\<lambda>(f, path, visited). 2 * length path + (if path \<in> visited then 0 else 1))")
  show "wf (measure (\<lambda>(f, path, visited). 2 * length path + (if path \<in> visited then 0 else 1)))"
    by simp
next
  fix f :: fs and path :: str and visited :: "str set"
  assume a: "\<not> (path = [] \<or> path \<in> visited)" "\<not> has_dot_git f path"
  show "((f, dirname path, insert path visited), (f, path, visited))
      \<in> measure (\<lambda>(f, path, visited). 2 * length path + (if path \<in> visited then 0 else 1))"
  proof (cases "length (dirname path) = length path")
    case True
    then show ?thesis using a dirname_fixed[of path] by simp
  next
    case False
    then have "length (dirname path) < length path" using dirname_length[of path] by simp
    then show ?thesis using a by simp
  qed
qed

declare walk_up.simps [simp del]

text \<open>
  \<open>Git.is_in_git_repo\<close>: a path that is not empty is made canonical first, then the
  loop starts with no path visited.
\<close>

definition is_in_git_repo :: "fs \<Rightarrow> str \<Rightarrow> bool" where
  "is_in_git_repo f path = walk_up f (if path = [] then path else realpath f path) {}"

section \<open>Example inputs\<close>

text \<open>
  A wrapper for a checkout, and an operating system in which the current branch tracks
  \<open>origin/main\<close>, the remote \<open>origin\<close> is an HTTPS address, and every other command
  line exits with code 128. \<open>hanging_os\<close> lets every process run into the timeout.
\<close>

definition demo_git :: git where
  "demo_git = \<lparr>repo_path = ustr ''/home/u/widgets'', git_bin = ustr ''/usr/bin/git'',
     encoding = ustr ''utf-8''\<rparr>"

definition demo_os :: os where
  "demo_os cmd cwd enc t =
     (if cmd = ustr ''/usr/bin/git'' # rev_parse_upstream
      then Exited 0 (ustr ''refs/remotes/origin/main'' @ [10]) []
      else if cmd = [ustr ''/usr/bin/git'', ustr ''remote'', ustr ''get-url'', ustr ''origin'']
      then Exited 0 (ustr ''https://github.com/acme/widgets.git'' @ [10]) []
      else Exited 128 [] (ustr ''fatal: not a git repository'' @ [10]))"


text \<open>
  A file system without symbolic links: one checkout with a \<open>.git\<close> directory, one
  worktree with a \<open>.git\<close> file.
\<close>

definition demo_fs :: fs where
  "demo_fs = \<lparr>realpath = (\<lambda>p. p), isdir = (\<lambda>p. p = ustr ''/home/u/widgets/.git''),
     isfile = (\<lambda>p. p = ustr ''/srv/tree/.git'')\<rparr>"

section \<open>Notions of the properties\<close>

text \<open>The ASCII lower-case form of a code point.\<close>

definition lower_ascii :: "nat \<Rightarrow> nat" where
  "lower_ascii c = (if 65 \<le> c \<and> c \<le> 90 then c + 32 else c)"

section \<open>Strings: splitting, joining, suffixes\<close>

lemma endswith_iff: "endswith s suf \<longleftrightarrow> (\<exists>v. s = v @ suf)"
  unfolding endswith_def
  by (metis append_eq_conv_conj append_take_drop_id diff_add_inverse2 length_append
      le_add2 length_drop)

lemma endswith_after_char:
  "c \<notin> set suf \<Longrightarrow> endswith (a @ c # p) suf = endswith p suf"
proof
  assume c: "c \<notin> set suf" and "endswith (a @ c # p) suf"
  then obtain v where v: "a @ c # p = v @ suf" by (auto simp: endswith_iff)
  then consider (l) us where "a = v @ us" "us @ c # p = suf"
    | (r) us where "a @ us = v" "c # p = us @ suf"
    by (auto simp: append_eq_append_conv2)
  then obtain w where "p = w @ suf"
  proof cases
    case l then show ?thesis using c by auto
  next
    case r
    then show ?thesis using c that by (cases us) auto
  qed
  then show "endswith p suf" by (auto simp: endswith_iff)
next
  assume "endswith p suf"
  then obtain w where "p = w @ suf" by (auto simp: endswith_iff)
  then have "a @ c # p = (a @ c # w) @ suf" by simp
  then show "endswith (a @ c # p) suf" unfolding endswith_iff by blast
qed

lemma py_split_ne [simp]: "py_split sep s \<noteq> []"
  by (induction s) (auto simp: neq_Nil_conv elim: cons_first.elims)

lemma cons_first_append: "xs \<noteq> [] \<Longrightarrow> cons_first c (xs @ ys) = cons_first c xs @ ys"
  by (cases xs) auto

lemma py_split_no_sep: "sep \<notin> set p \<Longrightarrow> py_split sep p = [p]"
  by (induction p) auto

text \<open>
  The last segment of a split is what follows the last separator; the segments before
  it are the split of what precedes that separator, which may hold separators itself.
\<close>

lemma py_split_append:
  "sep \<notin> set p \<Longrightarrow> py_split sep (h @ sep # p) = py_split sep h @ [p]"
  by (induction h) (auto simp: py_split_no_sep cons_first_append)

lemma py_join_cons_first:
  "xs \<noteq> [] \<Longrightarrow> py_join sep (cons_first c xs) = c # py_join sep xs"
  by (induction sep xs rule: py_join.induct) auto

lemma py_join_Cons: "xs \<noteq> [] \<Longrightarrow> py_join sep (x # xs) = x @ sep @ py_join sep xs"
  by (cases xs) auto

text \<open>Joining the segments of a split with the separator gives the string back.\<close>

lemma py_join_split: "py_join [sep] (py_split sep s) = s"
  by (induction s) (auto simp: py_join_cons_first py_join_Cons)

section \<open>Matching\<close>

lemma match_ic_refl [simp]: "match_ic p (p @ s)"
  by (induction p) (auto simp: lit_ic_def)

lemma match_ic_append: "match_ic pat v \<Longrightarrow> match_ic pat (v @ w)"
  by (induction pat v rule: match_ic.induct) auto

lemma match_ic_cut:
  "match_ic pat (v @ c # w) \<Longrightarrow> list_all (\<lambda>q. \<not> lit_ic q c) pat \<Longrightarrow> match_ic pat v"
  by (induction pat v rule: match_ic.induct) auto

lemma match_ic_shorter: "match_ic (p @ q) u \<Longrightarrow> match_ic p u"
  by (induction p u rule: match_ic.induct) auto

lemma search_ic_prefix: "match_ic p s \<Longrightarrow> search_ic p s"
  by (cases s) auto

lemma match_http_lower:
  assumes "match_ic (ustr ''http'') u"
  shows "4 \<le> length u \<and> map lower_ascii (take 4 u) = ustr ''http''"
proof -
  from assms obtain a u1 where u: "u = a # u1" by (cases u) auto
  with assms obtain b u2 where u1: "u1 = b # u2" by (cases u1) auto
  with assms u obtain c u3 where u2: "u2 = c # u3" by (cases u2) auto
  with assms u u1 obtain d u4 where u3: "u3 = d # u4" by (cases u3) auto
  from assms have "lit_ic 104 a" "lit_ic 116 b" "lit_ic 116 c" "lit_ic 112 d"
    by (simp_all add: u u1 u2 u3)
  then have "lower_ascii a = 104" "lower_ascii b = 116" "lower_ascii c = 116"
    "lower_ascii d = 112"
    by (auto simp: lit_ic_def lower_ascii_def)
  then show ?thesis by (simp add: u u1 u2 u3)
qed

section \<open>Stripping the suffix\<close>

lemma strip_dot_git_cases:
  obtains (plain) v where "u = v @ ustr ''.git''" "strip_dot_git u = v"
  | (newline) v where "u = v @ ustr ''.git'' @ [10]" "strip_dot_git u = v @ [10]"
  | (none) "\<not> endswith u (ustr ''.git'')" "\<not> endswith u (ustr ''.git'' @ [10])"
      "strip_dot_git u = u"
proof (cases "endswith u (ustr ''.git'')")
  case True
  then obtain v where "u = v @ ustr ''.git''" by (auto simp: endswith_iff)
  then show ?thesis using plain[of v] by (simp add: strip_dot_git_def endswith_def)
next
  case False
  show ?thesis
  proof (cases "endswith u (ustr ''.git'' @ [10])")
    case True
    then obtain v where "u = v @ ustr ''.git'' @ [10]" by (auto simp: endswith_iff)
    then show ?thesis using newline[of v] by (simp add: strip_dot_git_def endswith_def)
  next
    case f: False
    with False show ?thesis using none by (simp add: strip_dot_git_def)
  qed
qed

lemma strip_dot_git_suffix: "strip_dot_git (v @ ustr ''.git'') = v"
  by (simp add: strip_dot_git_def endswith_def)

text \<open>A slash is no character of the suffix, so stripping never reaches across one.\<close>

lemma strip_dot_git_after_slash:
  "strip_dot_git (a @ 47 # p) = a @ 47 # strip_dot_git p"
proof (cases p rule: strip_dot_git_cases)
  case (plain v)
  then show ?thesis using strip_dot_git_suffix[of "a @ 47 # v"] by simp
next
  case (newline v)
  have "strip_dot_git ((a @ 47 # v) @ ustr ''.git'' @ [10]) = (a @ 47 # v) @ [10]"
    by (simp add: strip_dot_git_def endswith_def)
  with newline show ?thesis by simp
next
  case none
  then show ?thesis
    by (simp add: strip_dot_git_def endswith_after_char)
qed

text \<open>A pattern without a dot that matches a string matches the stripped string too.\<close>

lemma match_ic_strip:
  assumes "match_ic pat u" "list_all (\<lambda>q. \<not> lit_ic q 46) pat"
  shows "match_ic pat (strip_dot_git u)"
proof (cases u rule: strip_dot_git_cases)
  case (plain v)
  with assms show ?thesis using match_ic_cut[of pat v 46 "ustr ''git''"] by simp
next
  case (newline v)
  with assms have "match_ic pat v"
    using match_ic_cut[of pat v 46 "ustr ''git'' @ [10]"] by simp
  with newline show ?thesis by (simp add: match_ic_append)
next
  case none
  with assms show ?thesis by simp
qed

section \<open>Properties of URI normalization\<close>

text \<open>The three outcomes of normalization, by the tests of the source.\<close>

lemma get_url_git_at:
  "search_ic (ustr ''git@'') uri \<Longrightarrow>
   get_url_from_remote_uri uri =
     Some (strip_dot_git (ustr ''https://''
        @ py_join (ustr '':'') (butlast (py_split (of_char CHR '':'') (drop 4 uri)))
        @ ustr ''/'' @ last (py_split (of_char CHR '':'') (drop 4 uri))))"
  by (simp add: get_url_from_remote_uri_def Let_def)

lemma get_url_http:
  assumes "\<not> search_ic (ustr ''git@'') uri"
    and "match_ic (ustr ''http://'') uri \<or> match_ic (ustr ''https://'') uri"
  shows "get_url_from_remote_uri uri = Some (strip_dot_git uri)"
proof -
  from assms(2) have "uri \<noteq> []" by auto
  with assms show ?thesis by (simp add: get_url_from_remote_uri_def Let_def)
qed

lemma get_url_none:
  assumes "\<not> search_ic (ustr ''git@'') uri"
    and "\<not> match_ic (ustr ''http://'') uri" "\<not> match_ic (ustr ''https://'') uri"
  shows "get_url_from_remote_uri uri = None"
  using assms by (simp add: get_url_from_remote_uri_def Let_def)

text \<open>
  A URI that starts with \<open>ssh://\<close> starts with neither \<open>http://\<close> nor \<open>https://\<close>, so
  it yields no value as long as \<open>git@\<close> does not occur in it.
\<close>

lemma get_url_ssh_without_git_at:
  assumes "match_ic (ustr ''ssh://'') uri" "\<not> search_ic (ustr ''git@'') uri"
  shows "get_url_from_remote_uri uri = None"
proof -
  from assms(1) obtain c cs where "uri = c # cs" "lit_ic 115 c" by (cases uri) auto
  then have "\<not> match_ic (ustr ''http://'') uri" "\<not> match_ic (ustr ''https://'') uri"
    by (auto simp: lit_ic_def)
  with assms(2) show ?thesis by (rule get_url_none)
qed

lemma get_url_scp:
  assumes "of_char CHR '':'' \<notin> set p"
  shows "get_url_from_remote_uri (ustr ''git@'' @ h @ ustr '':'' @ p) =
     Some (ustr ''https://'' @ h @ ustr ''/'' @ strip_dot_git p)"
proof -
  have s: "search_ic (ustr ''git@'') (ustr ''git@'' @ h @ ustr '':'' @ p)"
    by (rule search_ic_prefix) (rule match_ic_refl)
  have sp: "py_split 58 (h @ 58 # p) = py_split 58 h @ [p]"
    using assms by (simp add: py_split_append)
  have j: "py_join [58] (py_split 58 h) = h" by (rule py_join_split)
  have st: "strip_dot_git ((ustr ''https://'' @ h) @ 47 # p)
      = (ustr ''https://'' @ h) @ 47 # strip_dot_git p"
    by (rule strip_dot_git_after_slash)
  show ?thesis
    unfolding get_url_git_at[OF s] using sp j st by simp
qed

text \<open>
  C2: a URI that starts with \<open>ssh://\<close> yields no value, whatever follows. The test for
  \<open>ssh://\<close> is followed by the separate test for \<open>git@\<close> anywhere in the URI, which
  overrides it: \<open>ssh://git@github.com/acme/widgets.git\<close> starts with \<open>ssh://\<close> and
  yields a value, made of the URI without its first four characters.
\<close>

theorem ssh_uri_with_git_at_yields_url:
  "match_ic (ustr ''ssh://'') (ustr ''ssh://git@github.com/acme/widgets.git'')
   \<and> get_url_from_remote_uri (ustr ''ssh://git@github.com/acme/widgets.git'')
     = Some (ustr ''https://///git@github.com/acme/widgets'')"
  by code_simp

text \<open>
  C3: a URI that starts with \<open>http://\<close> or \<open>https://\<close> is returned as it is, but for a
  trailing \<open>.git\<close>. The later test for \<open>git@\<close> overrides the one for the scheme:
  \<open>https://git@github.com/acme/widgets.git\<close> loses its first four characters, is split
  at its colon and comes back as \<open>https://s///git@github.com/acme/widgets\<close>, not as
  \<open>https://git@github.com/acme/widgets\<close>.
\<close>

theorem https_uri_with_git_at_rewritten:
  "match_ic (ustr ''https://'') (ustr ''https://git@github.com/acme/widgets.git'')
   \<and> get_url_from_remote_uri (ustr ''https://git@github.com/acme/widgets.git'')
     = Some (ustr ''https://s///git@github.com/acme/widgets'')"
  by code_simp

text \<open>
  C4: a trailing \<open>.git\<close> is stripped from the result case-insensitively. The source passes
  \<open>re.IGNORECASE\<close> where \<open>re.sub\<close> takes \<open>count\<close>, so the suffix is matched
  case-sensitively: \<open>https://github.com/a/b.GIT\<close> comes back with its \<open>.GIT\<close>, while
  \<open>https://github.com/a/b.git\<close> loses its \<open>.git\<close>.
\<close>

theorem strip_dot_git_case_sensitive:
  "get_url_from_remote_uri (ustr ''https://github.com/a/b.GIT'')
     = Some (ustr ''https://github.com/a/b.GIT'')
   \<and> get_url_from_remote_uri (ustr ''https://github.com/a/b.git'')
     = Some (ustr ''https://github.com/a/b'')"
  by code_simp

text \<open>
  C5: a URI \<open>git@HOST:PATH\<close>, with or without the suffix \<open>.git\<close>, becomes
  \<open>https://HOST/PATH\<close>. \<open>PATH\<close> is the last segment between colons, so it holds no
  colon, while \<open>HOST\<close> is any string, colons included. In general the suffix is stripped
  from \<open>PATH\<close> (first part); so \<open>PATH.git\<close> gives \<open>PATH\<close> (second part), and a \<open>PATH\<close>
  that does not end in \<open>.git\<close>, nor in \<open>.git\<close> before a final newline, is kept (third
  part).
\<close>

theorem scp_uri_to_https:
  assumes "of_char CHR '':'' \<notin> set path"
  shows "get_url_from_remote_uri (ustr ''git@'' @ host @ ustr '':'' @ path)
           = Some (ustr ''https://'' @ host @ ustr ''/'' @ strip_dot_git path)
       \<and> get_url_from_remote_uri (ustr ''git@'' @ host @ ustr '':'' @ path @ ustr ''.git'')
           = Some (ustr ''https://'' @ host @ ustr ''/'' @ path)
       \<and> (\<not> endswith path (ustr ''.git'') \<and> \<not> endswith path (ustr ''.git'' @ [10]) \<longrightarrow>
            get_url_from_remote_uri (ustr ''git@'' @ host @ ustr '':'' @ path)
              = Some (ustr ''https://'' @ host @ ustr ''/'' @ path))"
proof -
  have a: "get_url_from_remote_uri (ustr ''git@'' @ host @ ustr '':'' @ path)
      = Some (ustr ''https://'' @ host @ ustr ''/'' @ strip_dot_git path)"
    using assms by (rule get_url_scp)
  have "of_char CHR '':'' \<notin> set (path @ ustr ''.git'')" using assms by simp
  then have "get_url_from_remote_uri (ustr ''git@'' @ host @ ustr '':'' @ (path @ ustr ''.git''))
      = Some (ustr ''https://'' @ host @ ustr ''/'' @ strip_dot_git (path @ ustr ''.git''))"
    by (rule get_url_scp)
  then have b: "get_url_from_remote_uri (ustr ''git@'' @ host @ ustr '':'' @ path @ ustr ''.git'')
      = Some (ustr ''https://'' @ host @ ustr ''/'' @ path)"
    unfolding strip_dot_git_suffix by simp
  have c: "strip_dot_git path = path"
    if "\<not> endswith path (ustr ''.git'')" "\<not> endswith path (ustr ''.git'' @ [10])"
    using that by (simp add: strip_dot_git_def)
  from a b c show ?thesis by simp
qed

theorem scp_uri_to_https_witness:
  "of_char CHR '':'' \<notin> set (ustr ''team/proj'')
   \<and> \<not> endswith (ustr ''team/proj'') (ustr ''.git'')
   \<and> \<not> endswith (ustr ''team/proj'') (ustr ''.git'' @ [10])
   \<and> get_url_from_remote_uri (ustr ''git@gitlab.com:2222:team/proj.git'')
       = Some (ustr ''https://gitlab.com:2222/team/proj'')
   \<and> get_url_from_remote_uri (ustr ''git@gitlab.com:2222:team/proj'')
       = Some (ustr ''https://gitlab.com:2222/team/proj'')"
  using scp_uri_to_https [of "ustr ''team/proj''" "ustr ''gitlab.com:2222''"]
  by (simp add: endswith_def strip_dot_git_def)

text \<open>
  C6: a URI \<open>https://HOST/PATH\<close>, with or without the suffix \<open>.git\<close>, becomes exactly
  \<open>https://HOST/PATH\<close>, and normalizing that again changes nothing. The test for \<open>git@\<close>
  anywhere in the URI overrides the one for the scheme also here:
  \<open>https://example.com/legit@home/widgets.git\<close> comes back as
  \<open>https://s///example.com/legit@home/widgets\<close>, and normalizing this once more gives
  yet another string.
\<close>

theorem https_uri_with_git_at_in_path:
  "get_url_from_remote_uri (ustr ''https://example.com/legit@home/widgets.git'')
     = Some (ustr ''https://s///example.com/legit@home/widgets'')
   \<and> get_url_from_remote_uri (ustr ''https://s///example.com/legit@home/widgets'')
     = Some (ustr ''https://s///s///example.com/legit@home/widgets'')"
  by code_simp

text \<open>
  C10: normalization yields no value, or a string that is not empty and whose first four
  characters are \<open>http\<close> in upper or lower case; it never yields the empty string.
\<close>

theorem get_url_none_or_http:
  "get_url_from_remote_uri uri = None
   \<or> (\<exists>url. get_url_from_remote_uri uri = Some url \<and> url \<noteq> [] \<and> 4 \<le> length url
         \<and> map lower_ascii (take 4 url) = ustr ''http'')"
proof -
  have strip: "4 \<le> length (strip_dot_git u)
      \<and> map lower_ascii (take 4 (strip_dot_git u)) = ustr ''http''"
    if "match_ic (ustr ''http://'') u \<or> match_ic (ustr ''https://'') u" for u
  proof -
    from that have "match_ic (ustr ''http'') u"
      using match_ic_shorter[of "ustr ''http''" "ustr ''://''" u]
        match_ic_shorter[of "ustr ''http''" "ustr ''s://''" u] by auto
    then have "match_ic (ustr ''http'') (strip_dot_git u)"
      by (rule match_ic_strip) (simp add: lit_ic_def)
    then show ?thesis by (rule match_http_lower)
  qed
  show ?thesis
  proof (cases "search_ic (ustr ''git@'') uri")
    case True
    define u where "u = ustr ''https://''
        @ py_join (ustr '':'') (butlast (py_split (of_char CHR '':'') (drop 4 uri)))
        @ ustr ''/'' @ last (py_split (of_char CHR '':'') (drop 4 uri))"
    have "match_ic (ustr ''https://'') u" unfolding u_def by (rule match_ic_refl)
    then have "4 \<le> length (strip_dot_git u)
      \<and> map lower_ascii (take 4 (strip_dot_git u)) = ustr ''http''" using strip by blast
    moreover have "get_url_from_remote_uri uri = Some (strip_dot_git u)"
      unfolding u_def using True by (rule get_url_git_at)
    ultimately show ?thesis by auto
  next
    case False
    show ?thesis
    proof (cases "match_ic (ustr ''http://'') uri \<or> match_ic (ustr ''https://'') uri")
      case True
      with False have "get_url_from_remote_uri uri = Some (strip_dot_git uri)"
        by (rule get_url_http)
      with strip[OF True] show ?thesis by auto
    next
      case f: False
      with False have "get_url_from_remote_uri uri = None" by (simp add: get_url_none)
      then show ?thesis by simp
    qed
  qed
qed

section \<open>Properties of the Process Runner\<close>

lemma py_splitn_ne [simp]: "py_splitn n sep s \<noteq> []"
  by (induction n sep s rule: py_splitn.induct) (auto simp: neq_Nil_conv elim: cons_first.elims)

lemma hd_cons_first: "xs \<noteq> [] \<Longrightarrow> hd (cons_first c xs) = c # hd xs"
  by (cases xs) auto

text \<open>The first element of a split with at least one cut is what precedes the first separator.\<close>

lemma hd_py_splitn: "hd (py_splitn (Suc n) sep s) = takeWhile (\<lambda>c. c \<noteq> sep) s"
  by (induction s) (auto simp: hd_cons_first)

text \<open>
  \<open>rstrip\<close> removes a run of whitespace from the end, and what it returns does not end
  in whitespace.
\<close>

lemma rstrip_decomp: "\<exists>ws. out = rstrip out @ ws \<and> list_all isspace ws"
proof -
  have "rev out = takeWhile isspace (rev out) @ dropWhile isspace (rev out)" by simp
  then have "out = rev (dropWhile isspace (rev out)) @ rev (takeWhile isspace (rev out))"
    by (metis rev_append rev_rev_ident)
  moreover have "list_all isspace (rev (takeWhile isspace (rev out)))"
    by (simp add: list_all_iff) (meson set_takeWhileD)
  ultimately show ?thesis unfolding rstrip_def by blast
qed

lemma rstrip_last: "rstrip out = [] \<or> \<not> isspace (last (rstrip out))"
proof (cases "dropWhile isspace (rev out) = []")
  case True
  then show ?thesis by (simp add: rstrip_def)
next
  case False
  then have "\<not> isspace (hd (dropWhile isspace (rev out)))" by (rule hd_dropWhile)
  with False show ?thesis by (simp add: rstrip_def last_rev)
qed


lemma run_exited:
  "os (git_bin g # args) (repo_path g) (encoding g) t = Exited rc out err \<Longrightarrow>
   run os g args t lg =
     (if rc \<noteq> 0 then Inl (GitException (git_exception_message (git_bin g # args) rc err))
      else Inr (rstrip out), lg @ [git_bin g # args])"
  by (simp add: run_def Let_def)




text \<open>
  C9: when the process exits with code zero, \<open>run\<close> returns its standard output without
  the trailing whitespace; when it exits with another code, \<open>run\<close> raises
  \<open>GitException\<close>, whose message holds the command line joined with blanks (each part
  quoted for the shell), the exit code and the standard error.
\<close>

theorem run_exit_code:
  assumes "os (git_bin g # args) (repo_path g) (encoding g) timeout_s = Exited ret_code out err"
  shows "(ret_code = 0 \<longrightarrow>
            fst (run os g args timeout_s lg) = Inr (rstrip out)
            \<and> (\<exists>ws. out = rstrip out @ ws \<and> list_all isspace ws)
            \<and> (rstrip out = [] \<or> \<not> isspace (last (rstrip out))))
       \<and> (ret_code \<noteq> 0 \<longrightarrow>
            fst (run os g args timeout_s lg) = Inl (GitException
              ([96] @ py_join (ustr '' '') (map shlex_quote (git_bin g # args)) @ [96]
                 @ ustr '' returned code '' @ str_int ret_code @ ustr '': '' @ err)))"
  using assms run_exited[of os g args timeout_s ret_code out err lg]
    rstrip_decomp[of out] rstrip_last[of out]
  by (simp add: git_exception_message_def)

theorem run_exit_code_witness:
  "fst (run demo_os demo_git [ustr ''remote'', ustr ''get-url'', ustr ''origin''] 3 [])
     = Inr (ustr ''https://github.com/acme/widgets.git'')
   \<and> fst (run demo_os demo_git [ustr ''remote'', ustr ''get-url'', ustr ''up stream''] 3 [])
     = Inl (GitException (ustr ''`/usr/bin/git remote get-url ''
          @ [39] @ ustr ''up stream'' @ [39] @ ustr ''` returned code 128: fatal: not a git repository'' @ [10]))"
proof -
  have a: "demo_os (git_bin demo_git # [ustr ''remote'', ustr ''get-url'', ustr ''origin''])
      (repo_path demo_git) (encoding demo_git) 3
      = Exited 0 (ustr ''https://github.com/acme/widgets.git'' @ [10]) []"
    by (simp add: demo_os_def demo_git_def rev_parse_upstream_def)
  have b: "demo_os (git_bin demo_git # [ustr ''remote'', ustr ''get-url'', ustr ''up stream''])
      (repo_path demo_git) (encoding demo_git) 3
      = Exited 128 [] (ustr ''fatal: not a git repository'' @ [10])"
    by (simp add: demo_os_def demo_git_def rev_parse_upstream_def)
  from run_exit_code[where os = demo_os and g = demo_git and lg = "[]", OF a]
    run_exit_code[where os = demo_os and g = demo_git and lg = "[]", OF b]
  show ?thesis
    by (simp add: rstrip_def isspace_def shlex_quote_def shlex_safe_def demo_git_def
        str_int_def str_nat.simps)
qed

section \<open>Properties of remote URL resolution\<close>






lemma sub_refs_remotes_prefix: "sub_refs_remotes (ustr ''refs/remotes/'' @ s) = s"
  by (simp add: sub_refs_remotes_def startswith_def)

lemma upstream_remote_exited:
  assumes "os (git_bin g # rev_parse_upstream) (repo_path g) (encoding g) 3 = Exited rc out err"
  shows "upstream_remote os g lg =
     (if rc \<noteq> 0
      then Inl (GitException (git_exception_message (git_bin g # rev_parse_upstream) rc err))
      else Inr (takeWhile (\<lambda>c. c \<noteq> of_char CHR ''/'') (sub_refs_remotes (rstrip out))),
      lg @ [git_bin g # rev_parse_upstream])"
  using run_exited[of os g rev_parse_upstream 3 rc out err lg] assms
  by (simp add: upstream_remote_def hd_py_splitn numeral_2_eq_2)




text \<open>The whole resolution on the example: two processes, and the address without its suffix.\<close>

lemma resolve_upstream_example:
  "get_remote_web_url demo_os demo_git None [] =
     (Inr (Some (ustr ''https://github.com/acme/widgets'')),
      [ustr ''/usr/bin/git'' # rev_parse_upstream,
       [ustr ''/usr/bin/git'', ustr ''remote'', ustr ''get-url'', ustr ''origin'']])"
proof -
  have u: "upstream_remote demo_os demo_git [] =
      (Inr (ustr ''origin''), [] @ [git_bin demo_git # rev_parse_upstream])"
    using upstream_remote_exited[of demo_os demo_git 0
        "ustr ''refs/remotes/origin/main'' @ [10]" "[]" "[]"]
    by (simp add: demo_os_def demo_git_def rstrip_def isspace_def sub_refs_remotes_def
        startswith_def)
  have r: "run demo_os demo_git [ustr ''remote'', ustr ''get-url'', ustr ''origin''] 3
        ([] @ [git_bin demo_git # rev_parse_upstream]) =
      (Inr (ustr ''https://github.com/acme/widgets.git''),
       ([] @ [git_bin demo_git # rev_parse_upstream])
         @ [git_bin demo_git # [ustr ''remote'', ustr ''get-url'', ustr ''origin'']])"
    using run_exited[of demo_os demo_git "[ustr ''remote'', ustr ''get-url'', ustr ''origin'']" 3 0
        "ustr ''https://github.com/acme/widgets.git'' @ [10]" "[]"
        "[] @ [git_bin demo_git # rev_parse_upstream]"]
    by (simp add: demo_os_def demo_git_def rstrip_def isspace_def rev_parse_upstream_def)
  have n: "get_url_from_remote_uri (ustr ''https://github.com/acme/widgets.git'')
      = Some (ustr ''https://github.com/acme/widgets'')"
    by code_simp
  show ?thesis
    unfolding get_remote_web_url_def try_remote_web_url_def option.case u prod.case sum.case r n
    by (simp add: demo_git_def)
qed

section \<open>Properties of repository detection\<close>

lemma dirname_Nil [simp]: "dirname [] = []"
  by (simp add: dirname_def)

lemma funpow_dirname_Nil [simp]: "(dirname ^^ n) [] = []"
  by (induction n) auto

lemma funpow_fixed: "f x = x \<Longrightarrow> (f ^^ n) x = x"
  by (induction n) auto

lemma dirname_examples:
  "dirname (ustr ''/home/u/widgets/src'') = ustr ''/home/u/widgets''"
  "dirname (ustr ''/home'') = ustr ''/''"
  "dirname (ustr ''/'') = ustr ''/''"
  "dirname (ustr ''widgets'') = []"
  by (simp_all add: dirname_def)

text \<open>
  The loop, started where every visited path has no \<open>.git\<close> entry and is longer than
  the current path or is the current path, left as it is by \<open>dirname\<close>: it answers
  whether some path of the chain \<open>path\<close>, \<open>dirname path\<close>, ... is not empty and has a
  \<open>.git\<close> entry.
\<close>

lemma walk_up_iff:
  assumes "\<forall>v\<in>visited. \<not> has_dot_git f v \<and> (length path < length v \<or> (v = path \<and> dirname path = path))"
  shows "walk_up f path visited \<longleftrightarrow>
     (\<exists>n. (dirname ^^ n) path \<noteq> [] \<and> has_dot_git f ((dirname ^^ n) path))"
  using assms
proof (induction f path visited rule: walk_up.induct)
  case (1 f path visited)
  show ?case
  proof (cases "path = []")
    case True
    then show ?thesis by (simp add: walk_up.simps)
  next
    case ne: False
    show ?thesis
    proof (cases "path \<in> visited")
      case True
      with "1.prems" have "\<not> has_dot_git f path" "dirname path = path" by auto
      then have "\<And>n. \<not> has_dot_git f ((dirname ^^ n) path)" by (simp add: funpow_fixed)
      with True show ?thesis by (simp add: walk_up.simps)
    next
      case nv: False
      show ?thesis
      proof (cases "has_dot_git f path")
        case True
        then have "(dirname ^^ 0) path \<noteq> [] \<and> has_dot_git f ((dirname ^^ 0) path)"
          using ne by simp
        then have "\<exists>n. (dirname ^^ n) path \<noteq> [] \<and> has_dot_git f ((dirname ^^ n) path)"
          by blast
        with True ne nv show ?thesis by (simp add: walk_up.simps)
      next
        case False
        have inv: "\<forall>v\<in>insert path visited. \<not> has_dot_git f v \<and>
            (length (dirname path) < length v \<or> (v = dirname path \<and> dirname (dirname path) = dirname path))"
        proof
          fix v assume v: "v \<in> insert path visited"
          show "\<not> has_dot_git f v \<and>
            (length (dirname path) < length v \<or> (v = dirname path \<and> dirname (dirname path) = dirname path))"
          proof (cases "v = path")
            case True
            show ?thesis
            proof (cases "length (dirname path) = length path")
              case True
              then have "dirname path = path" by (rule dirname_fixed)
              with \<open>v = path\<close> False show ?thesis by simp
            next
              case False
              then have "length (dirname path) < length path"
                using dirname_length[of path] by simp
              with \<open>v = path\<close> \<open>\<not> has_dot_git f path\<close> show ?thesis by simp
            qed
          next
            case False
            with v have "v \<in> visited" by simp
            with "1.prems" nv have "\<not> has_dot_git f v" "length path < length v" by auto
            then show ?thesis using dirname_length[of path] by simp
          qed
        qed
        have "walk_up f path visited = walk_up f (dirname path) (insert path visited)"
          using ne nv False by (simp add: walk_up.simps)
        also have "\<dots> \<longleftrightarrow> (\<exists>n. (dirname ^^ n) (dirname path) \<noteq> []
            \<and> has_dot_git f ((dirname ^^ n) (dirname path)))"
          using "1.IH" ne nv False inv by simp
        also have "\<dots> \<longleftrightarrow> (\<exists>n. (dirname ^^ n) path \<noteq> [] \<and> has_dot_git f ((dirname ^^ n) path))"
        proof
          assume "\<exists>n. (dirname ^^ n) (dirname path) \<noteq> []
            \<and> has_dot_git f ((dirname ^^ n) (dirname path))"
          then obtain n where "(dirname ^^ Suc n) path \<noteq> []
            \<and> has_dot_git f ((dirname ^^ Suc n) path)"
            by (auto simp: funpow_swap1)
          then show "\<exists>n. (dirname ^^ n) path \<noteq> [] \<and> has_dot_git f ((dirname ^^ n) path)"
            by blast
        next
          assume "\<exists>n. (dirname ^^ n) path \<noteq> [] \<and> has_dot_git f ((dirname ^^ n) path)"
          then obtain n where n: "(dirname ^^ n) path \<noteq> []" "has_dot_git f ((dirname ^^ n) path)"
            by blast
          with False obtain m where "n = Suc m" by (cases n) auto
          with n show "\<exists>n. (dirname ^^ n) (dirname path) \<noteq> []
            \<and> has_dot_git f ((dirname ^^ n) (dirname path))"
            by (auto simp: funpow_swap1)
        qed
        finally show ?thesis .
      qed
    qed
  qed
qed

text \<open>
  C8: detection is true exactly when the path is not empty and its canonical form, or
  one of the directories above it, has a \<open>.git\<close> entry that is a directory or a
  regular file: true for such a directory (zero steps up) and for every directory below
  it (some steps up), false when no directory up to the root has the entry (first
  part). The loop stops with false at the empty path (second part) and at a visited
  path (third part). It is a total function: it ends on every path and every file
  system, whatever \<open>realpath\<close>, \<open>isdir\<close> and \<open>isfile\<close> answer, since \<open>dirname\<close>
  works on the text of the canonical path and the visited set stops it at the root, a
  path that \<open>dirname\<close> leaves as it is.
\<close>

theorem is_in_git_repo_iff:
  "(is_in_git_repo f path \<longleftrightarrow>
      path \<noteq> [] \<and> (\<exists>n. (dirname ^^ n) (realpath f path) \<noteq> []
         \<and> has_dot_git f ((dirname ^^ n) (realpath f path))))
   \<and> \<not> walk_up f [] visited
   \<and> (p \<in> visited \<longrightarrow> \<not> walk_up f p visited)"
proof -
  have "is_in_git_repo f path \<longleftrightarrow>
      path \<noteq> [] \<and> (\<exists>n. (dirname ^^ n) (realpath f path) \<noteq> []
         \<and> has_dot_git f ((dirname ^^ n) (realpath f path)))"
  proof (cases "path = []")
    case True
    then show ?thesis by (simp add: is_in_git_repo_def walk_up.simps)
  next
    case False
    then show ?thesis
      using walk_up_iff[of "{}" f "realpath f path"] by (simp add: is_in_git_repo_def)
  qed
  moreover have "\<not> walk_up f [] visited" by (simp add: walk_up.simps)
  moreover have "p \<in> visited \<longrightarrow> \<not> walk_up f p visited" by (simp add: walk_up.simps)
  ultimately show ?thesis by blast
qed

theorem is_in_git_repo_iff_witness:
  "is_in_git_repo demo_fs (ustr ''/home/u/widgets'')
   \<and> is_in_git_repo demo_fs (ustr ''/home/u/widgets/src'')
   \<and> is_in_git_repo demo_fs (ustr ''/srv/tree/a'')
   \<and> \<not> is_in_git_repo demo_fs (ustr ''/home/u'')
   \<and> \<not> is_in_git_repo demo_fs []
   \<and> ustr ''/'' \<in> {ustr ''/home'', ustr ''/''}
   \<and> \<not> walk_up demo_fs (ustr ''/'') {ustr ''/home'', ustr ''/''}"
proof -
  have 0: "(dirname ^^ 0) (realpath demo_fs (ustr ''/home/u/widgets'')) \<noteq> []
      \<and> has_dot_git demo_fs ((dirname ^^ 0) (realpath demo_fs (ustr ''/home/u/widgets'')))"
    by (simp add: demo_fs_def has_dot_git_def path_join_def startswith_def endswith_def)
  have 1: "(dirname ^^ 1) (realpath demo_fs (ustr ''/home/u/widgets/src'')) \<noteq> []
      \<and> has_dot_git demo_fs ((dirname ^^ 1) (realpath demo_fs (ustr ''/home/u/widgets/src'')))"
    by (simp add: demo_fs_def has_dot_git_def path_join_def startswith_def endswith_def
        dirname_def)
  have 2: "(dirname ^^ 1) (realpath demo_fs (ustr ''/srv/tree/a'')) \<noteq> []
      \<and> has_dot_git demo_fs ((dirname ^^ 1) (realpath demo_fs (ustr ''/srv/tree/a'')))"
    by (simp add: demo_fs_def has_dot_git_def path_join_def startswith_def endswith_def
        dirname_def)
  have a: "is_in_git_repo demo_fs (ustr ''/home/u/widgets'')"
    using is_in_git_repo_iff[of demo_fs "ustr ''/home/u/widgets''"] 0 by blast
  have b: "is_in_git_repo demo_fs (ustr ''/home/u/widgets/src'')"
    using is_in_git_repo_iff[of demo_fs "ustr ''/home/u/widgets/src''"] 1 by blast
  have c: "is_in_git_repo demo_fs (ustr ''/srv/tree/a'')"
    using is_in_git_repo_iff[of demo_fs "ustr ''/srv/tree/a''"] 2 by blast
  have d: "\<not> is_in_git_repo demo_fs (ustr ''/home/u'')"
    by (simp add: is_in_git_repo_def walk_up.simps demo_fs_def has_dot_git_def path_join_def
        startswith_def endswith_def dirname_def)
  have e: "\<not> is_in_git_repo demo_fs []"
    using is_in_git_repo_iff[of demo_fs "[]"] by simp
  have g: "ustr ''/'' \<in> {ustr ''/home'', ustr ''/''}" by simp
  then have h: "\<not> walk_up demo_fs (ustr ''/'') {ustr ''/home'', ustr ''/''}"
    using is_in_git_repo_iff[where f = demo_fs and p = "ustr ''/''"
        and visited = "{ustr ''/home'', ustr ''/''}"]
    by blast
  from a b c d e g h show ?thesis by simp
qed

end
